theory Spec2Isabelle
  imports Complex_Main "HOL-Library.Sublist"
begin

section \<open>Python values used by \<^verbatim>\<open>backend_assessment/main.py\<close>\<close>

text \<open>
  The exceptions that the modelled code can meet. \<open>BadRequest\<close> and
  \<open>UnsupportedMediaType\<close> are what \<^verbatim>\<open>request.get_json()\<close> raises on a body that is
  not JSON; \<open>RuntimeError\<close> stands for any other exception class.
\<close>

datatype py_error = KeyError | TypeError | AttributeError | BadRequest | UnsupportedMediaType
  | RuntimeError

text \<open>
  What \<^verbatim>\<open>request.get_json()\<close> can return: \<open>None\<close>, \<open>bool\<close>, \<open>int\<close>, \<open>float\<close>, \<open>str\<close>,
  \<open>list\<close>, \<open>dict\<close>. A finite float is represented by the rational number it denotes. A dict
  is the list of its items; lookup takes the first item with the key.
\<close>

datatype json = JNull | JBool bool | JInt int | JFloat rat | JStr string
  | JArr "json list" | JObj "(string \<times> json) list"

text \<open>\<^verbatim>\<open>bool(x)\<close>, as used by \<^verbatim>\<open>not data\<close>.\<close>

fun py_truthy :: "json \<Rightarrow> bool" where
  "py_truthy JNull = False"
| "py_truthy (JBool b) = b"
| "py_truthy (JInt n) = (n \<noteq> 0)"
| "py_truthy (JFloat r) = (r \<noteq> 0)"
| "py_truthy (JStr s) = (s \<noteq> [])"
| "py_truthy (JArr xs) = (xs \<noteq> [])"
| "py_truthy (JObj kvs) = (kvs \<noteq> [])"

text \<open>Substring test, \<^verbatim>\<open>needle in s\<close> for two strings.\<close>

fun str_contains :: "string \<Rightarrow> string \<Rightarrow> bool" where
  "str_contains needle [] = (needle = [])"
| "str_contains needle (c # cs) = (prefix needle (c # cs) \<or> str_contains needle cs)"

text \<open>
  \<^verbatim>\<open>k in x\<close> for a string \<open>k\<close>: a key test on a dict, an element test on a list, a substring
  test on a string, and \<open>TypeError\<close> on \<open>None\<close>, a bool or a number.
\<close>

fun py_contains :: "string \<Rightarrow> json \<Rightarrow> py_error + bool" where
  "py_contains k (JObj kvs) = Inr (map_of kvs k \<noteq> None)"
| "py_contains k (JArr xs) = Inr (JStr k \<in> set xs)"
| "py_contains k (JStr s) = Inr (str_contains k s)"
| "py_contains k _ = Inl TypeError"

text \<open>\<^verbatim>\<open>x[k]\<close> for a string \<open>k\<close>.\<close>

fun py_getitem :: "json \<Rightarrow> string \<Rightarrow> py_error + json" where
  "py_getitem (JObj kvs) k = (case map_of kvs k of None \<Rightarrow> Inl KeyError | Some v \<Rightarrow> Inr v)"
| "py_getitem _ k = Inl TypeError"

text \<open>\<^verbatim>\<open>x.get(k)\<close>: \<open>None\<close> for a missing key; only a dict has the method.\<close>

fun py_get :: "json \<Rightarrow> string \<Rightarrow> py_error + json" where
  "py_get (JObj kvs) k = (case map_of kvs k of None \<Rightarrow> Inr JNull | Some v \<Rightarrow> Inr v)"
| "py_get _ k = Inl AttributeError"

text \<open>
  Keys of the dict \<^verbatim>\<open>TRANSACTIONS\<close>. Python compares dict keys with \<^verbatim>\<open>==\<close> after hashing:
  \<^verbatim>\<open>True\<close>, \<^verbatim>\<open>1\<close> and \<^verbatim>\<open>1.0\<close> are one key, a list or a dict is unhashable
  (\<open>py_hash\<close> gives \<open>None\<close> where Python raises \<open>TypeError\<close>).
\<close>

datatype key = KNone | KNum rat | KStr string

fun py_hash :: "json \<Rightarrow> key option" where
  "py_hash JNull = Some KNone"
| "py_hash (JBool b) = Some (KNum (if b then 1 else 0))"
| "py_hash (JInt n) = Some (KNum (of_int n))"
| "py_hash (JFloat r) = Some (KNum r)"
| "py_hash (JStr s) = Some (KStr s)"
| "py_hash (JArr xs) = None"
| "py_hash (JObj kvs) = None"

definition try_bind :: "py_error + 'a \<Rightarrow> ('a \<Rightarrow> py_error + 'b) \<Rightarrow> py_error + 'b" where
  "try_bind m f = (case m of Inl e \<Rightarrow> Inl e | Inr x \<Rightarrow> f x)"

section \<open>Timestamps\<close>

text \<open>The reading of the clock, \<^verbatim>\<open>datetime.now(timezone.utc)\<close>, is an input of the model.\<close>

record datetime =
  year :: nat
  month :: nat
  day :: nat
  hour :: nat
  minute :: nat
  second :: nat
  microsecond :: nat

text \<open>The calendar of \<^verbatim>\<open>datetime\<close>: the proleptic Gregorian one.\<close>

definition leap_year :: "nat \<Rightarrow> bool" where
  "leap_year y = (y mod 4 = 0 \<and> (y mod 100 \<noteq> 0 \<or> y mod 400 = 0))"

definition days_in_month :: "nat \<Rightarrow> nat \<Rightarrow> nat" where
  "days_in_month y m =
     (if m = 2 then (if leap_year y then 29 else 28)
      else if m = 4 \<or> m = 6 \<or> m = 9 \<or> m = 11 then 30 else 31)"

text \<open>
  What every \<^verbatim>\<open>datetime\<close> object satisfies: the constructor checks these ranges
  (\<^verbatim>\<open>MINYEAR = 1\<close>, \<^verbatim>\<open>MAXYEAR = 9999\<close>).
\<close>

definition valid_datetime :: "datetime \<Rightarrow> bool" where
  "valid_datetime dt =
     (1 \<le> year dt \<and> year dt \<le> 9999 \<and> 1 \<le> month dt \<and> month dt \<le> 12 \<and>
      1 \<le> day dt \<and> day dt \<le> days_in_month (year dt) (month dt) \<and>
      hour dt < 24 \<and> minute dt < 60 \<and> second dt < 60 \<and> microsecond dt < 1000000)"

definition digit :: "nat \<Rightarrow> char" where
  "digit d = ''0123456789'' ! (d mod 10)"

function decimal :: "nat \<Rightarrow> string" where
  "decimal n = (if n < 10 then [digit n] else decimal (n div 10) @ [digit (n mod 10)])"
  by pat_completeness auto
termination
  by (relation "measure id") auto

text \<open>\<^verbatim>\<open>"%0wd" % n\<close>\<close>

definition zero_pad :: "nat \<Rightarrow> nat \<Rightarrow> string" where
  "zero_pad w n = replicate (w - length (decimal n)) (CHR ''0'') @ decimal n"

text \<open>\<^verbatim>\<open>isoformat()\<close> of an aware datetime whose offset is zero.\<close>

definition isoformat :: "datetime \<Rightarrow> string" where
  "isoformat dt =
     zero_pad 4 (year dt) @ ''-'' @ zero_pad 2 (month dt) @ ''-'' @ zero_pad 2 (day dt) @
     ''T'' @ zero_pad 2 (hour dt) @ '':'' @ zero_pad 2 (minute dt) @ '':'' @
     zero_pad 2 (second dt) @
     (if microsecond dt \<noteq> 0 then ''.'' @ zero_pad 6 (microsecond dt) else []) @
     ''+00:00''"

text \<open>
  \<^verbatim>\<open>s.replace(old, new)\<close> for a non-empty \<open>old\<close>: every occurrence, left to right, not
  overlapping. (With an empty \<open>old\<close> Python inserts \<open>new\<close> between the characters; the
  program never does that and the model returns \<open>s\<close>.)
\<close>

function replace_str :: "string \<Rightarrow> string \<Rightarrow> string \<Rightarrow> string" where
  "replace_str old new s =
     (if s = [] \<or> old = [] then s
      else if prefix old s then new @ replace_str old new (drop (length old) s)
      else hd s # replace_str old new (tl s))"
  by pat_completeness auto
termination
  by (relation "measure (\<lambda>(old, new, s). length s)") auto

definition get_utc_timestamp :: "datetime \<Rightarrow> string" where
  "get_utc_timestamp now = replace_str ''+00:00'' ''Z'' (isoformat now)"

section \<open>The transaction store and the executor\<close>

datatype status = PROCESSING | PROCESSED

text \<open>The dict stored under each key of \<^verbatim>\<open>TRANSACTIONS\<close>; \<open>processed_at = None\<close> is \<^verbatim>\<open>None\<close>.\<close>

record txn =
  transaction_id :: json
  source_account :: json
  destination_account :: json
  amount :: json
  currency :: json
  status :: status
  created_at :: string
  processed_at :: "string option"

text \<open>
  Log messages carry the transaction id instead of the formatted text. \<open>Sleep\<close> records a
  call of \<^verbatim>\<open>time.sleep\<close>.
\<close>

datatype message = IdempotencySkip json | StartingProcessing json | SuccessfullyProcessed json
  | WebhookReceived json | DuplicateWebhook json | ErrorProcessingWebhook py_error
  | StartingService

datatype effect = LogInfo message | LogWarning message | LogError message | Sleep nat

text \<open>
  The state of the process: the global dict, the work queue of the executor (submitted, not
  started), the tasks being run by a worker thread (each is in \<^verbatim>\<open>time.sleep\<close> and holds only
  its local \<open>txn_id\<close>), and what was logged and slept so far.
\<close>

record state =
  TRANSACTIONS :: "key \<Rightarrow> txn option"
  queue :: "txn list"
  running :: "json list"
  trace :: "effect list"

definition max_workers :: nat where
  "max_workers = 5"

text \<open>The module as imported: an empty dict, an idle executor.\<close>

definition init :: state where
  "init = \<lparr>TRANSACTIONS = Map.empty, queue = [], running = [], trace = []\<rparr>"

definition logging :: "effect \<Rightarrow> state \<Rightarrow> state" where
  "logging e st = st\<lparr>trace := trace st @ [e]\<rparr>"

section \<open>The background worker\<close>

text \<open>
  \<^verbatim>\<open>process_transaction\<close>, lines 36 to 45: the first block under the lock. The result is
  \<open>Inr True\<close> when the function returns at the idempotency skip, \<open>Inr False\<close> when it goes on,
  and \<open>Inl TypeError\<close> when \<open>txn_id\<close> is unhashable. \<^verbatim>\<open>TRANSACTIONS.get(txn_id, {}).get('status')\<close>
  is \<open>None\<close> for an absent record.
\<close>

definition process_guard :: "txn \<Rightarrow> state \<Rightarrow> (py_error + bool) \<times> state" where
  "process_guard transaction_data st =
     (let txn_id = transaction_id transaction_data in
      case py_hash txn_id of
        None \<Rightarrow> (Inl TypeError, st)
      | Some k \<Rightarrow>
          (let current_status = map_option status (TRANSACTIONS st k) in
           if current_status = Some PROCESSED
           then (Inr True, logging (LogWarning (IdempotencySkip txn_id)) st)
           else (Inr False, logging (LogInfo (StartingProcessing txn_id)) st)))"

text \<open>
  Lines 52 to 56: the second block under the lock. \<^verbatim>\<open>TRANSACTIONS[txn_id]\<close> raises
  \<open>KeyError\<close> for an absent record, before anything is written.
\<close>

definition process_finish :: "json \<Rightarrow> datetime \<Rightarrow> state \<Rightarrow> (py_error + unit) \<times> state" where
  "process_finish txn_id now st =
     (case py_hash txn_id of
        None \<Rightarrow> (Inl TypeError, st)
      | Some k \<Rightarrow>
          (case TRANSACTIONS st k of
             None \<Rightarrow> (Inl KeyError, st)
           | Some r \<Rightarrow>
               (Inr (),
                logging (LogInfo (SuccessfullyProcessed txn_id))
                  (st\<lparr>TRANSACTIONS := (TRANSACTIONS st)
                        (k \<mapsto> r\<lparr>status := PROCESSED,
                                 processed_at := Some (get_utc_timestamp now)\<rparr>)\<rparr>))))"

text \<open>
  Lines 47 to 56: \<^verbatim>\<open>time.sleep(30)\<close>, then the second block. \<open>slept\<close> is how the sleep ends:
  \<open>None\<close> when it returns, \<open>Some e\<close> when it raises \<open>e\<close>. The function has no handler, so
  \<open>e\<close> leaves it.
\<close>

definition process_rest ::
    "json \<Rightarrow> py_error option \<Rightarrow> datetime \<Rightarrow> state \<Rightarrow> (py_error + unit) \<times> state" where
  "process_rest txn_id slept now st =
     (let st1 = logging (Sleep 30) st in
      case slept of
        Some e \<Rightarrow> (Inl e, st1)
      | None \<Rightarrow> process_finish txn_id now st1)"

text \<open>The whole function, run without interruption by another thread.\<close>

definition process_transaction ::
    "txn \<Rightarrow> py_error option \<Rightarrow> datetime \<Rightarrow> state \<Rightarrow> (py_error + unit) \<times> state" where
  "process_transaction transaction_data slept now st =
     (case process_guard transaction_data st of
        (Inl e, st1) \<Rightarrow> (Inl e, st1)
      | (Inr True, st1) \<Rightarrow> (Inr (), st1)
      | (Inr False, st1) \<Rightarrow> process_rest (transaction_id transaction_data) slept now st1)"

section \<open>The endpoints\<close>

datatype body = ErrorBody string | MessageBody json | RecordBody txn | HealthBody string string

type_synonym response = "body \<times> nat"

definition health_check :: "datetime \<Rightarrow> response" where
  "health_check now = (HealthBody ''HEALTHY'' (get_utc_timestamp now), 200)"

text \<open>\<^verbatim>\<open>not data or 'transaction_id' not in data\<close>, the right operand evaluated only for a truthy \<open>data\<close>.\<close>

definition invalid_payload :: "json \<Rightarrow> py_error + bool" where
  "invalid_payload data =
     (if \<not> py_truthy data then Inr True
      else try_bind (py_contains ''transaction_id'' data) (\<lambda>b. Inr (\<not> b)))"

text \<open>
  The \<^verbatim>\<open>try\<close> block of \<^verbatim>\<open>receive_webhook\<close>, lines 79 to 116. \<open>request\<close> is the outcome of
  \<^verbatim>\<open>request.get_json()\<close>: the parsed body, or the exception raised for a body that is not
  JSON. The body of the 202 response carries \<open>txn_id\<close> instead of the formatted message.
\<close>

definition webhook_try ::
    "py_error + json \<Rightarrow> datetime \<Rightarrow> state \<Rightarrow> py_error + (response \<times> state)" where
  "webhook_try request now st =
     try_bind request (\<lambda>data.
     try_bind (invalid_payload data) (\<lambda>invalid.
       if invalid then Inr ((ErrorBody ''Invalid payload'', 400), st)
       else
     try_bind (py_getitem data ''transaction_id'') (\<lambda>txn_id.
     let created_time = get_utc_timestamp now in
     try_bind (py_get data ''source_account'') (\<lambda>src.
     try_bind (py_get data ''destination_account'') (\<lambda>dst.
     try_bind (py_get data ''amount'') (\<lambda>amt.
     try_bind (py_get data ''currency'') (\<lambda>cur.
     let transaction_data =
           \<lparr>transaction_id = txn_id, source_account = src, destination_account = dst,
            amount = amt, currency = cur, status = PROCESSING, created_at = created_time,
            processed_at = None\<rparr>
     in
     case py_hash txn_id of
       None \<Rightarrow> Inl TypeError
     | Some k \<Rightarrow>
         (let st1 =
                (if TRANSACTIONS st k = None
                 then logging (LogInfo (WebhookReceived txn_id))
                        (st\<lparr>TRANSACTIONS := (TRANSACTIONS st)(k \<mapsto> transaction_data)\<rparr>)
                 else logging (LogInfo (DuplicateWebhook txn_id)) st);
              st2 = st1\<lparr>queue := queue st1 @ [transaction_data]\<rparr>
          in Inr ((MessageBody txn_id, 202), st2)))))))))"

text \<open>\<^verbatim>\<open>receive_webhook\<close>: the \<^verbatim>\<open>try\<close> block and its \<^verbatim>\<open>except Exception\<close> handler.\<close>

definition receive_webhook :: "py_error + json \<Rightarrow> datetime \<Rightarrow> state \<Rightarrow> response \<times> state" where
  "receive_webhook request now st =
     (case webhook_try request now st of
        Inr res \<Rightarrow> res
      | Inl e \<Rightarrow>
          ((ErrorBody ''Internal server error during webhook reception'', 500),
           logging (LogError (ErrorProcessingWebhook e)) st))"

text \<open>
  \<^verbatim>\<open>get_transaction_status\<close>; the path parameter is a string. A stored record is a dict
  with eight keys, so \<^verbatim>\<open>if transaction\<close> fails only for \<open>None\<close>.
\<close>

definition get_transaction_status :: "string \<Rightarrow> state \<Rightarrow> response" where
  "get_transaction_status tid st =
     (case TRANSACTIONS st (KStr tid) of
        Some transaction \<Rightarrow> (RecordBody transaction, 200)
      | None \<Rightarrow> (ErrorBody ''Transaction not found'', 404))"

text \<open>
  The block under \<^verbatim>\<open>if __name__ == '__main__'\<close>, up to the call of \<^verbatim>\<open>app.run\<close>. The dict
  display reads the clock twice. \<^verbatim>\<open>99.99\<close> is the double nearest to that decimal.
\<close>

definition main_script :: "datetime \<Rightarrow> datetime \<Rightarrow> state \<Rightarrow> state" where
  "main_script now1 now2 st =
     logging (LogInfo StartingService)
       (st\<lparr>TRANSACTIONS := (TRANSACTIONS st)
             (KStr ''txn_test_ready'' \<mapsto>
                \<lparr>transaction_id = JStr ''txn_test_ready'',
                 source_account = JStr ''acc_user_100'',
                 destination_account = JStr ''acc_merchant_100'',
                 amount = JFloat (Fract 7036170730324623 70368744177664),
                 currency = JStr ''USD'',
                 status = PROCESSED,
                 created_at = get_utc_timestamp now1,
                 processed_at = Some (get_utc_timestamp now2)\<rparr>)\<rparr>)"

section \<open>Interleavings\<close>

text \<open>
  Every access to the dict happens inside a \<^verbatim>\<open>with transaction_lock\<close> block, so a block is
  one step. A run of the service is a list of events: a request served, the executor
  starting the oldest queued task on a free worker thread (the task runs its first block),
  or a running task leaving \<^verbatim>\<open>time.sleep\<close> and running its second block. An exception of a
  task is kept in its future, which nothing reads.
\<close>

datatype event = Post "py_error + json" datetime | Get string | Health datetime
  | Dispatch | Complete nat "py_error option" datetime

fun step :: "event \<Rightarrow> state \<Rightarrow> state" where
  "step (Post request now) st = snd (receive_webhook request now st)"
| "step (Get tid) st = st"
| "step (Health now) st = st"
| "step Dispatch st =
     (case queue st of
        [] \<Rightarrow> st
      | d # q \<Rightarrow>
          if length (running st) < max_workers
          then (case process_guard d (st\<lparr>queue := q\<rparr>) of
                  (Inr False, st1) \<Rightarrow> st1\<lparr>running := running st1 @ [transaction_id d]\<rparr>
                | (_, st1) \<Rightarrow> st1)
          else st)"
| "step (Complete i slept now) st =
     (if i < length (running st)
      then snd (process_rest (running st ! i) slept now
                  (st\<lparr>running := take i (running st) @ drop (Suc i) (running st)\<rparr>))
      else st)"

fun run :: "event list \<Rightarrow> state \<Rightarrow> state" where
  "run [] st = st"
| "run (e # es) st = run es (step e st)"


text \<open>What the clients are sent during a run: the response of each request, in order.\<close>

fun respond :: "event \<Rightarrow> state \<Rightarrow> response list" where
  "respond (Post request now) st = [fst (receive_webhook request now st)]"
| "respond (Get tid) st = [get_transaction_status tid st]"
| "respond (Health now) st = [health_check now]"
| "respond Dispatch st = []"
| "respond (Complete i slept now) st = []"

fun responses :: "event list \<Rightarrow> state \<Rightarrow> response list" where
  "responses [] st = []"
| "responses (e # es) st = respond e st @ responses es (step e st)"

text \<open>The states a run goes through, the first one included.\<close>

fun states :: "event list \<Rightarrow> state \<Rightarrow> state list" where
  "states [] st = [st]"
| "states (e # es) st = st # states es (step e st)"

text \<open>The clock readings that an event carries, and those of a run.\<close>

fun clocks :: "event \<Rightarrow> datetime list" where
  "clocks (Post request now) = [now]"
| "clocks (Get tid) = []"
| "clocks (Health now) = [now]"
| "clocks Dispatch = []"
| "clocks (Complete i slept now) = [now]"

definition readings :: "event list \<Rightarrow> datetime list" where
  "readings es = concat (map clocks es)"

section \<open>Properties to be stated\<close>

text \<open>
  One step of the dict, as seen from outside: nothing, a completion of an existing record,
  or the registration of a record under a fresh key. \<open>C\<close> holds the clock readings that
  the step may use.
\<close>

inductive store_step ::
    "datetime set \<Rightarrow> (key \<Rightarrow> txn option) \<Rightarrow> (key \<Rightarrow> txn option) \<Rightarrow> bool"
  for C :: "datetime set" where
  unchanged: "store_step C m m"
| completed: "m k = Some r \<Longrightarrow> now \<in> C \<Longrightarrow>
    store_step C m (m(k \<mapsto> r\<lparr>status := PROCESSED, processed_at := Some (get_utc_timestamp now)\<rparr>))"
| registered: "m k = None \<Longrightarrow> status r = PROCESSING \<Longrightarrow> processed_at r = None \<Longrightarrow>
    created_at r = get_utc_timestamp now \<Longrightarrow> now \<in> C \<Longrightarrow> store_step C m (m(k \<mapsto> r))"

text \<open>The values that \<open>processed_at\<close> of the record under \<open>k\<close> takes during a run.\<close>

definition processed_at_values :: "key \<Rightarrow> event list \<Rightarrow> state \<Rightarrow> string list" where
  "processed_at_values k es st =
     remdups (concat (map (\<lambda>s. case TRANSACTIONS s k of
                                  None \<Rightarrow> []
                                | Some r \<Rightarrow> (case processed_at r of None \<Rightarrow> [] | Some ts \<Rightarrow> [ts]))
                          (states es st)))"

text \<open>
  The validation as the specification words it: the body deserializes to an object that
  contains a non-empty \<open>transaction_id\<close>.
\<close>

definition spec_valid_payload :: "py_error + json \<Rightarrow> bool" where
  "spec_valid_payload request =
     (case request of
        Inr (JObj kvs) \<Rightarrow> (case map_of kvs ''transaction_id'' of
                             None \<Rightarrow> False
                           | Some v \<Rightarrow> v \<noteq> JNull \<and> v \<noteq> JStr [])
      | _ \<Rightarrow> False)"

text \<open>
  The bodies that \<^verbatim>\<open>receive_webhook\<close> answers with 400: a falsy value, or a non-empty
  dict, list or string in which \<^verbatim>\<open>'transaction_id'\<close> is not a key, not an element, not a
  substring.
\<close>

definition lacks_transaction_id :: "json \<Rightarrow> bool" where
  "lacks_transaction_id data =
     (\<not> py_truthy data \<or>
      (case data of
         JObj kvs \<Rightarrow> map_of kvs ''transaction_id'' = None
       | JArr xs \<Rightarrow> JStr ''transaction_id'' \<notin> set xs
       | JStr s \<Rightarrow> \<not> str_contains ''transaction_id'' s
       | _ \<Rightarrow> False))"


text \<open>
  Reading a timestamp of the form \<^verbatim>\<open>YYYY-MM-DDTHH:MM:SSZ\<close> or
  \<^verbatim>\<open>YYYY-MM-DDTHH:MM:SS.ffffffZ\<close>: fields of decimal digits of these widths, these
  separators, nothing else.
\<close>

definition digit_value :: "char \<Rightarrow> nat option" where
  "digit_value c = map_of (zip ''0123456789'' [0, 1, 2, 3, 4, 5, 6, 7, 8, 9]) c"

fun number_acc :: "nat \<Rightarrow> string \<Rightarrow> nat option" where
  "number_acc n [] = Some n"
| "number_acc n (c # cs) =
     (case digit_value c of None \<Rightarrow> None | Some d \<Rightarrow> number_acc (10 * n + d) cs)"

definition number :: "string \<Rightarrow> nat option" where
  "number s = number_acc 0 s"

definition parse_timestamp :: "string \<Rightarrow> datetime option" where
  "parse_timestamp s =
     (if (length s = 20 \<or> length s = 27 \<and> s ! 19 = CHR ''.'') \<and>
         [s ! 4, s ! 7, s ! 10, s ! 13, s ! 16, last s] = ''--T::Z''
      then
        Option.bind (number (take 4 s)) (\<lambda>y.
        Option.bind (number (take 2 (drop 5 s))) (\<lambda>mo.
        Option.bind (number (take 2 (drop 8 s))) (\<lambda>d.
        Option.bind (number (take 2 (drop 11 s))) (\<lambda>h.
        Option.bind (number (take 2 (drop 14 s))) (\<lambda>mi.
        Option.bind (number (take 2 (drop 17 s))) (\<lambda>sec.
        Option.bind (if length s = 20 then Some 0 else number (take 6 (drop 20 s))) (\<lambda>us.
        Some \<lparr>year = y, month = mo, day = d, hour = h, minute = mi, second = sec,
              microsecond = us\<rparr>)))))))
      else None)"

text \<open>
  An ISO-8601 date and time in UTC with the designator \<open>Z\<close>: it reads as above, and the
  fields are a date of the calendar and a time of the day.
\<close>

definition iso8601_utc_z :: "string \<Rightarrow> bool" where
  "iso8601_utc_z s =
     (case parse_timestamp s of
        None \<Rightarrow> False
      | Some dt \<Rightarrow>
          1 \<le> month dt \<and> month dt \<le> 12 \<and> 1 \<le> day dt \<and>
          day dt \<le> days_in_month (year dt) (month dt) \<and>
          hour dt < 24 \<and> minute dt < 60 \<and> second dt < 60)"

text \<open>Ends in \<open>Z\<close> and has no \<open>+00:00\<close> inside.\<close>

definition z_suffixed :: "string \<Rightarrow> bool" where
  "z_suffixed s = (s \<noteq> [] \<and> last s = CHR ''Z'' \<and> \<not> str_contains ''+00:00'' s)"

definition utc_z :: "string \<Rightarrow> bool" where
  "utc_z s = (iso8601_utc_z s \<and> z_suffixed s)"

text \<open>The timestamps of a record, of a response body, and of the whole dict.\<close>

definition record_timestamps :: "txn \<Rightarrow> string list" where
  "record_timestamps r =
     created_at r # (case processed_at r of None \<Rightarrow> [] | Some ts \<Rightarrow> [ts])"

fun body_timestamps :: "body \<Rightarrow> string list" where
  "body_timestamps (HealthBody s current_time) = [current_time]"
| "body_timestamps (RecordBody r) = record_timestamps r"
| "body_timestamps (ErrorBody e) = []"
| "body_timestamps (MessageBody m) = []"

definition well_stamped :: "(key \<Rightarrow> txn option) \<Rightarrow> bool" where
  "well_stamped m = (\<forall>k r. m k = Some r \<longrightarrow> list_all utc_z (record_timestamps r))"

text \<open>The payload fields and the creation time of two records agree.\<close>

definition same_payload :: "txn \<Rightarrow> txn \<Rightarrow> bool" where
  "same_payload r r' =
     (transaction_id r' = transaction_id r \<and> source_account r' = source_account r \<and>
      destination_account r' = destination_account r \<and> amount r' = amount r \<and>
      currency r' = currency r \<and> created_at r' = created_at r)"

text \<open>
  Two states of the process that differ at most in what the queued snapshots hold besides
  their \<open>transaction_id\<close>.
\<close>

definition same_ids :: "state \<Rightarrow> state \<Rightarrow> bool" where
  "same_ids s t =
     (TRANSACTIONS s = TRANSACTIONS t \<and>
      map transaction_id (queue s) = map transaction_id (queue t) \<and>
      running s = running t \<and> trace s = trace t)"

text \<open>Clock readings and payloads for the examples.\<close>

definition clock :: "nat \<Rightarrow> datetime" where
  "clock s = \<lparr>year = 2025, month = 1, day = 2, hour = 3, minute = 4, second = s, microsecond = 0\<rparr>"

definition payload :: "string \<Rightarrow> int \<Rightarrow> json" where
  "payload tid n = JObj [(''transaction_id'', JStr tid), (''amount'', JInt n)]"

definition record_of :: "string \<Rightarrow> int \<Rightarrow> status \<Rightarrow> string \<Rightarrow> string option \<Rightarrow> txn" where
  "record_of tid n s c p =
     \<lparr>transaction_id = JStr tid, source_account = JNull, destination_account = JNull,
      amount = JInt n, currency = JNull, status = s, created_at = c, processed_at = p\<rparr>"

declare replace_str.simps [simp del] decimal.simps [simp del]

section \<open>Strings and timestamps\<close>

lemma digit_in: "digit d \<in> set ''0123456789''"
  unfolding digit_def by (rule nth_mem) simp

lemma decimal_digits: "set (decimal n) \<subseteq> set ''0123456789''"
proof (induction n rule: decimal.induct)
  case (1 n)
  show ?case
  proof (cases "n < 10")
    case True
    then show ?thesis using digit_in [of n] by (subst decimal.simps) simp
  next
    case False
    then show ?thesis using 1 digit_in [of "n mod 10"] by (subst decimal.simps) simp
  qed
qed

lemma zero_pad_digits: "set (zero_pad w n) \<subseteq> set ''0123456789''"
  using decimal_digits [of n] by (auto simp: zero_pad_def)

lemma decimal_length: "n < 10 ^ w \<Longrightarrow> 0 < w \<Longrightarrow> length (decimal n) \<le> w"
proof (induction n arbitrary: w rule: decimal.induct)
  case (1 n)
  show ?case
  proof (cases "n < 10")
    case True
    then show ?thesis using 1(3) by (subst decimal.simps) simp
  next
    case False
    obtain v where w: "w = Suc v" using 1(3) by (cases w) auto
    have "n div 10 < 10 ^ v" using 1(2) w by (simp add: less_mult_imp_div_less mult.commute)
    moreover have "0 < v" using False 1(2) w by (cases v) auto
    ultimately have "length (decimal (n div 10)) \<le> v" using 1(1) False by simp
    then show ?thesis using False w by (subst decimal.simps) simp
  qed
qed

lemma zero_pad_length: "n < 10 ^ w \<Longrightarrow> 0 < w \<Longrightarrow> length (zero_pad w n) = w"
  using decimal_length [of n w] by (simp add: zero_pad_def)

lemma replace_no_plus:
  "CHR ''+'' \<notin> set b \<Longrightarrow> replace_str ''+00:00'' ''Z'' (b @ ''+00:00'') = b @ ''Z''"
proof (induction b)
  case Nil
  have "replace_str ''+00:00'' ''Z'' [] = []" by (subst replace_str.simps) simp
  then show ?case by (subst replace_str.simps) simp
next
  case (Cons c b)
  then have "c \<noteq> CHR ''+''" by auto
  then have "\<not> prefix ''+00:00'' ((c # b) @ ''+00:00'')" by simp
  then show ?case using Cons by (subst replace_str.simps) simp
qed

lemma str_contains_set: "str_contains needle s \<Longrightarrow> set needle \<subseteq> set s"
proof (induction s)
  case Nil
  then show ?case by simp
next
  case (Cons c s)
  then show ?case using set_mono_prefix [of needle "c # s"] by auto
qed

lemma zero_pad_no_plus: "CHR ''+'' \<notin> set (zero_pad w n)"
  using zero_pad_digits [of w n] by auto

lemma get_utc_timestamp_eq:
  "get_utc_timestamp dt =
     (zero_pad 4 (year dt) @ ''-'' @ zero_pad 2 (month dt) @ ''-'' @ zero_pad 2 (day dt) @
      ''T'' @ zero_pad 2 (hour dt) @ '':'' @ zero_pad 2 (minute dt) @ '':'' @
      zero_pad 2 (second dt) @
      (if microsecond dt \<noteq> 0 then ''.'' @ zero_pad 6 (microsecond dt) else [])) @ ''Z''"
  (is "_ = ?b @ _")
proof -
  have "CHR ''+'' \<notin> set ?b" by (simp add: zero_pad_no_plus)
  then have "replace_str ''+00:00'' ''Z'' (?b @ ''+00:00'') = ?b @ ''Z''"
    by (rule replace_no_plus)
  moreover have "isoformat dt = ?b @ ''+00:00''" by (simp add: isoformat_def)
  ultimately show ?thesis by (simp only: get_utc_timestamp_def)
qed

lemma get_utc_timestamp_no_plus: "CHR ''+'' \<notin> set (get_utc_timestamp dt)"
  by (simp add: get_utc_timestamp_eq zero_pad_no_plus)

lemma get_utc_timestamp_z: "z_suffixed (get_utc_timestamp dt)"
proof -
  have "\<not> str_contains ''+00:00'' (get_utc_timestamp dt)"
    using str_contains_set [of "''+00:00''" "get_utc_timestamp dt"]
      get_utc_timestamp_no_plus [of dt] by auto
  moreover have "get_utc_timestamp dt \<noteq> [] \<and> last (get_utc_timestamp dt) = CHR ''Z''"
    by (simp add: get_utc_timestamp_eq)
  ultimately show ?thesis by (simp add: z_suffixed_def)
qed

lemma digit_value_nth: "k < 10 \<Longrightarrow> digit_value (''0123456789'' ! k) = Some k"
proof -
  assume "k < 10"
  then consider "k = 0" | "k = 1" | "k = 2" | "k = 3" | "k = 4" | "k = 5" | "k = 6" | "k = 7"
    | "k = 8" | "k = 9" by atomize_elim arith
  then show ?thesis by cases (simp_all add: digit_value_def)
qed

lemma digit_value_digit: "digit_value (digit d) = Some (d mod 10)"
  unfolding digit_def by (rule digit_value_nth) simp

lemma number_acc_append:
  "number_acc n (a @ b) = Option.bind (number_acc n a) (\<lambda>v. number_acc v b)"
  by (induction a arbitrary: n) (simp_all split: option.splits)

lemma number_acc_decimal: "number_acc 0 (decimal n) = Some n"
proof (induction n rule: decimal.induct)
  case (1 n)
  show ?case
  proof (cases "n < 10")
    case True
    then show ?thesis by (subst decimal.simps) (simp add: digit_value_digit)
  next
    case False
    then have "number_acc 0 (decimal (n div 10)) = Some (n div 10)" using 1 by simp
    then show ?thesis using False
      by (subst decimal.simps) (simp add: number_acc_append digit_value_digit)
  qed
qed

lemma number_acc_zeros: "number_acc 0 (replicate k (CHR ''0'')) = Some 0"
  by (induction k) (simp_all add: digit_value_def)

lemma number_zero_pad: "number (zero_pad w n) = Some n"
  by (simp add: number_def zero_pad_def number_acc_append number_acc_zeros number_acc_decimal)

lemma field2:
  assumes "n < 100"
  obtains a b where "zero_pad 2 n = [a, b]" and "number [a, b] = Some n"
proof -
  have "n < 10 ^ 2" using assms by simp
  then have "length (zero_pad 2 n) = 2" by (rule zero_pad_length) simp
  then obtain a b where "zero_pad 2 n = [a, b]"
    by (auto simp: numeral_2_eq_2 length_Suc_conv)
  then show ?thesis using that number_zero_pad [of 2 n] by simp
qed

lemma field4:
  assumes "n < 10000"
  obtains a b c d where "zero_pad 4 n = [a, b, c, d]" and "number [a, b, c, d] = Some n"
proof -
  have "n < 10 ^ 4" using assms by simp
  then have "length (zero_pad 4 n) = Suc (Suc (Suc (Suc 0)))"
    using zero_pad_length [of n 4] by simp
  then obtain a b c d where "zero_pad 4 n = [a, b, c, d]"
    by (auto simp: length_Suc_conv)
  then show ?thesis using that number_zero_pad [of 4 n] by simp
qed

lemma field6:
  assumes "n < 1000000"
  obtains a b c d e f where "zero_pad 6 n = [a, b, c, d, e, f]"
    and "number [a, b, c, d, e, f] = Some n"
proof -
  have "n < 10 ^ 6" using assms by simp
  then have "length (zero_pad 6 n) = Suc (Suc (Suc (Suc (Suc (Suc 0)))))"
    using zero_pad_length [of n 6] by simp
  then obtain a b c d e f where "zero_pad 6 n = [a, b, c, d, e, f]"
    by (auto simp: length_Suc_conv)
  then show ?thesis using that number_zero_pad [of 6 n] by simp
qed

lemma days_in_month_le: "days_in_month y m \<le> 31"
  by (simp add: days_in_month_def)

lemma parse_get_utc_timestamp:
  assumes "valid_datetime dt"
  shows "parse_timestamp (get_utc_timestamp dt) = Some dt"
proof -
  have d31: "day dt \<le> 31"
    using assms days_in_month_le [of "year dt" "month dt"] by (simp add: valid_datetime_def)
  obtain y1 y2 y3 y4 where y: "zero_pad 4 (year dt) = [y1, y2, y3, y4]"
    and yn: "number [y1, y2, y3, y4] = Some (year dt)"
    using assms by (auto simp: valid_datetime_def intro: field4 [of "year dt"])
  obtain m1 m2 where mo: "zero_pad 2 (month dt) = [m1, m2]"
    and mon: "number [m1, m2] = Some (month dt)"
    using assms by (auto simp: valid_datetime_def intro: field2 [of "month dt"])
  obtain d1 d2 where d: "zero_pad 2 (day dt) = [d1, d2]"
    and dn: "number [d1, d2] = Some (day dt)"
    using d31 by (auto intro: field2 [of "day dt"])
  obtain h1 h2 where h: "zero_pad 2 (hour dt) = [h1, h2]"
    and hn: "number [h1, h2] = Some (hour dt)"
    using assms by (auto simp: valid_datetime_def intro: field2 [of "hour dt"])
  obtain i1 i2 where mi: "zero_pad 2 (minute dt) = [i1, i2]"
    and min: "number [i1, i2] = Some (minute dt)"
    using assms by (auto simp: valid_datetime_def intro: field2 [of "minute dt"])
  obtain s1 s2 where s: "zero_pad 2 (second dt) = [s1, s2]"
    and sn: "number [s1, s2] = Some (second dt)"
    using assms by (auto simp: valid_datetime_def intro: field2 [of "second dt"])
  obtain u1 u2 u3 u4 u5 u6 where us: "zero_pad 6 (microsecond dt) = [u1, u2, u3, u4, u5, u6]"
    and usn: "number [u1, u2, u3, u4, u5, u6] = Some (microsecond dt)"
    using assms by (auto simp: valid_datetime_def intro: field6 [of "microsecond dt"])
  show ?thesis
  proof (cases "microsecond dt = 0")
    case True
    then show ?thesis
      by (simp add: get_utc_timestamp_eq parse_timestamp_def y mo d h mi s yn mon dn hn min sn)
  next
    case False
    then show ?thesis
      by (simp add: get_utc_timestamp_eq parse_timestamp_def y mo d h mi s us
          yn mon dn hn min sn usn)
  qed
qed

lemma get_utc_timestamp_iso:
  assumes "valid_datetime dt"
  shows "iso8601_utc_z (get_utc_timestamp dt)"
  using assms parse_get_utc_timestamp [of dt] by (simp add: iso8601_utc_z_def valid_datetime_def)

lemma get_utc_timestamp_utc_z: "valid_datetime dt \<Longrightarrow> utc_z (get_utc_timestamp dt)"
  by (simp add: utc_z_def get_utc_timestamp_iso get_utc_timestamp_z)

section \<open>How each operation changes the dict\<close>

lemma logging_fields [simp]:
  "TRANSACTIONS (logging e st) = TRANSACTIONS st"
  "queue (logging e st) = queue st"
  "running (logging e st) = running st"
  "trace (logging e st) = trace st @ [e]"
  by (simp_all add: logging_def)

lemma store_step_mono: "store_step C m m' \<Longrightarrow> C \<subseteq> D \<Longrightarrow> store_step D m m'"
  by (erule store_step.cases) (auto intro: store_step.intros)

lemma process_guard_store: "TRANSACTIONS (snd (process_guard d st)) = TRANSACTIONS st"
  by (simp add: process_guard_def Let_def split: option.splits)

lemma process_finish_store:
  "store_step {now} (TRANSACTIONS st) (TRANSACTIONS (snd (process_finish tid now st)))"
  by (auto simp: process_finish_def split: option.splits
      intro: store_step.unchanged store_step.completed)

lemma process_rest_store:
  "store_step {now} (TRANSACTIONS st) (TRANSACTIONS (snd (process_rest tid slept now st)))"
proof (cases slept)
  case None
  then show ?thesis
    using process_finish_store [of now "logging (Sleep 30) st" tid]
    by (simp add: process_rest_def Let_def)
next
  case (Some e)
  then show ?thesis by (simp add: process_rest_def Let_def store_step.unchanged)
qed


lemma webhook_try_store:
  "webhook_try request now st = Inr (resp, st') \<Longrightarrow>
     store_step {now} (TRANSACTIONS st) (TRANSACTIONS st')"
  by (auto simp: webhook_try_def try_bind_def Let_def
      split: sum.splits option.splits if_splits
      intro!: store_step.unchanged store_step.registered [where now = now])

lemma receive_webhook_store:
  "store_step {now} (TRANSACTIONS st) (TRANSACTIONS (snd (receive_webhook request now st)))"
proof (cases "webhook_try request now st")
  case (Inl e)
  then show ?thesis by (simp add: receive_webhook_def store_step.unchanged)
next
  case (Inr res)
  then show ?thesis
    using webhook_try_store [of request now st "fst res" "snd res"]
    by (simp add: receive_webhook_def)
qed

lemma dispatch_store: "TRANSACTIONS (step Dispatch st) = TRANSACTIONS st"
proof (cases "queue st")
  case Nil
  then show ?thesis by simp
next
  case (Cons d q)
  have "TRANSACTIONS (snd (process_guard d (st\<lparr>queue := q\<rparr>))) = TRANSACTIONS st"
    by (simp add: process_guard_store)
  then show ?thesis using Cons
    by (auto split: prod.splits sum.splits bool.splits)
qed

lemma step_store: "store_step (set (clocks e)) (TRANSACTIONS st) (TRANSACTIONS (step e st))"
proof (cases e)
  case (Post request now)
  then show ?thesis by (simp add: receive_webhook_store)
next
  case (Get tid)
  then show ?thesis by (simp add: store_step.unchanged)
next
  case (Health now)
  then show ?thesis by (simp add: store_step.unchanged)
next
  case Dispatch
  then show ?thesis by (simp only: dispatch_store store_step.unchanged)
next
  case (Complete i slept now)
  then show ?thesis
    using process_rest_store
      [of now "st\<lparr>running := take i (running st) @ drop (Suc i) (running st)\<rparr>"
          "running st ! i" slept]
    by (simp add: store_step.unchanged)
qed

lemma run_invariant:
  assumes "\<And>m m'. P m \<Longrightarrow> store_step C m m' \<Longrightarrow> P m'"
    and "set (readings es) \<subseteq> C" and "P (TRANSACTIONS st)"
  shows "P (TRANSACTIONS (run es st))"
  using assms(2,3)
proof (induction es arbitrary: st)
  case Nil
  then show ?case by simp
next
  case (Cons e es)
  have "store_step C (TRANSACTIONS st) (TRANSACTIONS (step e st))"
    using step_store [of e st] Cons.prems(1) by (auto simp: readings_def intro: store_step_mono)
  then have "P (TRANSACTIONS (step e st))" using assms(1) Cons.prems(2) by blast
  moreover have "set (readings es) \<subseteq> C" using Cons.prems(1) by (simp add: readings_def)
  ultimately show ?case using Cons.IH by simp
qed

lemmas run_defs = receive_webhook_def webhook_try_def try_bind_def invalid_payload_def
  payload_def Let_def logging_def init_def process_guard_def process_rest_def
  process_finish_def process_transaction_def max_workers_def record_of_def
  get_transaction_status_def main_script_def health_check_def

section \<open>Timestamps of the records and of the responses\<close>

lemma well_stamped_step:
  assumes "\<forall>now \<in> C. valid_datetime now" and "well_stamped m" and "store_step C m m'"
  shows "well_stamped m'"
  using assms(3)
proof cases
  case unchanged
  then show ?thesis using assms(2) by simp
next
  case (completed k r now)
  have "utc_z (get_utc_timestamp now)"
    using assms(1) completed(3) by (simp add: get_utc_timestamp_utc_z)
  moreover have "utc_z (created_at r)"
    using assms(2) completed(2) by (auto simp: well_stamped_def record_timestamps_def)
  ultimately show ?thesis
    using assms(2) completed(1) by (auto simp: well_stamped_def record_timestamps_def)
next
  case (registered k r now)
  have "utc_z (get_utc_timestamp now)"
    using assms(1) registered(6) by (simp add: get_utc_timestamp_utc_z)
  then show ?thesis
    using assms(2) registered by (auto simp: well_stamped_def record_timestamps_def)
qed

lemma well_stamped_run:
  assumes "list_all valid_datetime (readings es)" and "well_stamped (TRANSACTIONS st)"
  shows "well_stamped (TRANSACTIONS (run es st))"
proof (rule run_invariant [where P = well_stamped and C = "set (readings es)"])
  fix m m'
  assume "well_stamped m" and "store_step (set (readings es)) m m'"
  then show "well_stamped m'"
    using assms(1) well_stamped_step [of "set (readings es)" m m'] by (simp add: list_all_iff)
qed (simp_all add: assms(2))

lemma receive_webhook_body:
  "body_timestamps (fst (fst (receive_webhook request now st))) = []"
  by (auto simp: receive_webhook_def webhook_try_def try_bind_def Let_def
      split: sum.splits option.splits if_splits)

lemma respond_stamped:
  assumes "list_all valid_datetime (clocks e)" and "well_stamped (TRANSACTIONS st)"
    and "resp \<in> set (respond e st)"
  shows "list_all utc_z (body_timestamps (fst resp))"
proof (cases e)
  case (Post request now)
  then show ?thesis using assms(3) by (simp add: receive_webhook_body)
next
  case (Get tid)
  then show ?thesis using assms(2,3)
    by (auto simp: get_transaction_status_def well_stamped_def split: option.splits)
next
  case (Health now)
  then show ?thesis using assms(1,3) by (simp add: health_check_def get_utc_timestamp_utc_z)
next
  case Dispatch
  then show ?thesis using assms(3) by simp
next
  case (Complete i slept now)
  then show ?thesis using assms(3) by simp
qed

lemma responses_stamped:
  assumes "list_all valid_datetime (readings es)" and "well_stamped (TRANSACTIONS st)"
    and "resp \<in> set (responses es st)"
  shows "list_all utc_z (body_timestamps (fst resp))"
  using assms
proof (induction es arbitrary: st)
  case Nil
  then show ?case by simp
next
  case (Cons e es)
  have e: "list_all valid_datetime (clocks e)" and es: "list_all valid_datetime (readings es)"
    using Cons.prems(1) by (simp_all add: readings_def)
  have "well_stamped (TRANSACTIONS (run [e] st))"
    using e Cons.prems(2) by (intro well_stamped_run) (simp_all add: readings_def)
  then have next_ok: "well_stamped (TRANSACTIONS (step e st))" by simp
  from Cons.prems(3) consider "resp \<in> set (respond e st)" | "resp \<in> set (responses es (step e st))"
    by auto
  then show ?case
  proof cases
    case 1
    then show ?thesis using e Cons.prems(2) by (rule respond_stamped [rotated 2])
  next
    case 2
    then show ?thesis using es next_ok Cons.IH by blast
  qed
qed

lemma well_stamped_init: "well_stamped (TRANSACTIONS init)"
  by (simp add: well_stamped_def init_def)

lemma well_stamped_main:
  "valid_datetime now1 \<Longrightarrow> valid_datetime now2 \<Longrightarrow>
     well_stamped (TRANSACTIONS (main_script now1 now2 init))"
  by (simp add: well_stamped_def main_script_def init_def record_timestamps_def
      get_utc_timestamp_utc_z)

lemma clock_valid: "valid_datetime (clock s) = (s < 60)"
  by (simp add: valid_datetime_def clock_def days_in_month_def)

lemmas stamp_defs = get_utc_timestamp_eq zero_pad_def decimal.simps digit_def clock_def

lemma clock_stamp_10: "get_utc_timestamp (clock 10) = ''2025-01-02T03:04:10Z''"
  by (simp add: stamp_defs)

lemma clock_stamp_20: "get_utc_timestamp (clock 20) = ''2025-01-02T03:04:20Z''"
  by (simp add: stamp_defs)

lemma clock_stamp_40: "get_utc_timestamp (clock 40) = ''2025-01-02T03:04:40Z''"
  by (simp add: stamp_defs)

lemma clock_stamp_50: "get_utc_timestamp (clock 50) = ''2025-01-02T03:04:50Z''"
  by (simp add: stamp_defs)

lemma clock_stamp_us:
  "get_utc_timestamp ((clock 5)\<lparr>microsecond := 123456\<rparr>) = ''2025-01-02T03:04:05.123456Z''"
  by (simp add: stamp_defs)

lemma iso8601_utc_z_rejects:
  "\<not> iso8601_utc_z ''9999-99-99T99:99:99Z''"
  "\<not> iso8601_utc_z ''12025-01-02T03:04:31Z''"
  "\<not> iso8601_utc_z ''2025-02-29T03:04:31Z''"
  "\<not> iso8601_utc_z ''2025-01-02T03:04:31+00:00''"
  "\<not> iso8601_utc_z ''2025-01-02 03:04:31Z''"
  by (simp_all add: iso8601_utc_z_def parse_timestamp_def number_def digit_value_def
      days_in_month_def leap_year_def)

text \<open>
  C8: in every run of the service, started as a module or as a script, whose clock
  readings are readings of \<^verbatim>\<open>datetime.now\<close>, every \<open>created_at\<close> and \<open>processed_at\<close> held in
  the dict and every timestamp sent in a response (\<open>current_time\<close> of the health probe,
  \<open>created_at\<close> and \<open>processed_at\<close> of a status query) is an ISO-8601 date and time with
  valid fields that ends in \<open>Z\<close> and does not contain \<open>+00:00\<close>; read back, a timestamp is
  the clock reading it was made from.
\<close>

theorem timestamps_utc_z:
  assumes "list_all valid_datetime (readings es)"
    and "valid_datetime now1" and "valid_datetime now2"
  shows "well_stamped (TRANSACTIONS (run es init)) \<and>
    (\<forall>resp \<in> set (responses es init). list_all utc_z (body_timestamps (fst resp))) \<and>
    well_stamped (TRANSACTIONS (run es (main_script now1 now2 init))) \<and>
    (\<forall>resp \<in> set (responses es (main_script now1 now2 init)).
       list_all utc_z (body_timestamps (fst resp))) \<and>
    (\<forall>now \<in> set (now1 # now2 # readings es).
       utc_z (get_utc_timestamp now) \<and> parse_timestamp (get_utc_timestamp now) = Some now)"
proof -
  have "\<forall>now \<in> set (now1 # now2 # readings es). valid_datetime now"
    using assms by (simp add: list_all_iff)
  then have "\<forall>now \<in> set (now1 # now2 # readings es).
      utc_z (get_utc_timestamp now) \<and> parse_timestamp (get_utc_timestamp now) = Some now"
    using get_utc_timestamp_utc_z parse_get_utc_timestamp by blast
  moreover have "well_stamped (TRANSACTIONS (run es init))"
    using assms(1) well_stamped_init by (rule well_stamped_run)
  moreover have "well_stamped (TRANSACTIONS (run es (main_script now1 now2 init)))"
    using assms by (intro well_stamped_run well_stamped_main)
  moreover have "\<forall>resp \<in> set (responses es init). list_all utc_z (body_timestamps (fst resp))"
    using assms(1) well_stamped_init responses_stamped by blast
  moreover have "\<forall>resp \<in> set (responses es (main_script now1 now2 init)).
      list_all utc_z (body_timestamps (fst resp))"
    using assms well_stamped_main responses_stamped by blast
  ultimately show ?thesis by blast
qed

theorem timestamps_utc_z_witness:
  "list_all valid_datetime
     (readings [Post (Inr (payload ''t1'' 10)) (clock 10),
                Health ((clock 5)\<lparr>microsecond := 123456\<rparr>), Dispatch,
                Complete 0 None (clock 40), Get ''t1'', Get ''txn_test_ready'']) \<and>
   valid_datetime (clock 20) \<and> valid_datetime (clock 10) \<and>
   map (body_timestamps \<circ> fst)
     (responses [Post (Inr (payload ''t1'' 10)) (clock 10),
                 Health ((clock 5)\<lparr>microsecond := 123456\<rparr>), Dispatch,
                 Complete 0 None (clock 40), Get ''t1'', Get ''txn_test_ready'']
        (main_script (clock 20) (clock 10) init)) =
     [[], [''2025-01-02T03:04:05.123456Z''],
      [''2025-01-02T03:04:10Z'', ''2025-01-02T03:04:40Z''],
      [''2025-01-02T03:04:20Z'', ''2025-01-02T03:04:10Z'']] \<and>
   utc_z ''2025-01-02T03:04:05.123456Z'' \<and> utc_z ''2025-01-02T03:04:10Z'' \<and>
   utc_z ''2025-01-02T03:04:40Z'' \<and> utc_z ''2025-01-02T03:04:20Z'' \<and>
   parse_timestamp ''2025-01-02T03:04:40Z'' = Some (clock 40)"
proof -
  let ?es = "[Post (Inr (payload ''t1'' 10)) (clock 10),
              Health ((clock 5)\<lparr>microsecond := 123456\<rparr>), Dispatch,
              Complete 0 None (clock 40), Get ''t1'', Get ''txn_test_ready'']"
  have v5: "valid_datetime ((clock 5)\<lparr>microsecond := 123456\<rparr>)"
    by (simp add: valid_datetime_def clock_def days_in_month_def)
  have v: "list_all valid_datetime (readings ?es)"
    by (simp add: readings_def clock_valid v5)
  have r: "map (body_timestamps \<circ> fst) (responses ?es (main_script (clock 20) (clock 10) init)) =
     [[], [''2025-01-02T03:04:05.123456Z''],
      [''2025-01-02T03:04:10Z'', ''2025-01-02T03:04:40Z''],
      [''2025-01-02T03:04:20Z'', ''2025-01-02T03:04:10Z'']]"
    by (simp add: run_defs record_timestamps_def clock_stamp_10 clock_stamp_20 clock_stamp_40
        clock_stamp_us)
  have t: "\<forall>resp \<in> set (responses ?es (main_script (clock 20) (clock 10) init)).
       list_all utc_z (body_timestamps (fst resp))"
    and p: "\<forall>now \<in> set (clock 20 # clock 10 # readings ?es).
       parse_timestamp (get_utc_timestamp now) = Some now"
    using timestamps_utc_z [of ?es "clock 20" "clock 10"] v by (simp_all add: clock_valid)
  have "\<forall>ts \<in> set (map (body_timestamps \<circ> fst)
      (responses ?es (main_script (clock 20) (clock 10) init))). list_all utc_z ts"
    using t by simp
  then have u: "utc_z ''2025-01-02T03:04:05.123456Z'' \<and> utc_z ''2025-01-02T03:04:10Z'' \<and>
      utc_z ''2025-01-02T03:04:40Z'' \<and> utc_z ''2025-01-02T03:04:20Z''"
    unfolding r by simp
  have "clock 40 \<in> set (clock 20 # clock 10 # readings ?es)" by (simp add: readings_def)
  then have "parse_timestamp (get_utc_timestamp (clock 40)) = Some (clock 40)" using p by blast
  then have q: "parse_timestamp ''2025-01-02T03:04:40Z'' = Some (clock 40)"
    by (simp only: clock_stamp_40)
  show ?thesis using v r u q by (simp only: clock_valid) simp
qed

section \<open>The claims about the worker, the dict and the start as a script\<close>

lemma guard_skips:
  assumes "py_hash (transaction_id d) = Some k" and "TRANSACTIONS st k = Some r"
    and "status r = PROCESSED"
  shows "process_guard d st = (Inr True, logging (LogWarning (IdempotencySkip (transaction_id d))) st)"
  using assms by (simp add: process_guard_def)






text \<open>
  C10: the block under \<^verbatim>\<open>if __name__ == '__main__'\<close> leaves a dict that holds exactly one
  record, under \<^verbatim>\<open>'txn_test_ready'\<close>, with status \<open>PROCESSED\<close> and \<open>processed_at\<close> set, and
  nothing submitted to the executor; a status query for that id is answered 200 with the
  record. The module merely imported has an empty dict and answers 404.
\<close>

theorem main_script_seeds:
  "TRANSACTIONS (main_script now1 now2 init) =
     [KStr ''txn_test_ready'' \<mapsto>
        \<lparr>transaction_id = JStr ''txn_test_ready'', source_account = JStr ''acc_user_100'',
         destination_account = JStr ''acc_merchant_100'',
         amount = JFloat (Fract 7036170730324623 70368744177664), currency = JStr ''USD'',
         status = PROCESSED, created_at = get_utc_timestamp now1,
         processed_at = Some (get_utc_timestamp now2)\<rparr>] \<and>
   TRANSACTIONS (main_script now1 now2 init) \<noteq> Map.empty \<and>
   queue (main_script now1 now2 init) = [] \<and> running (main_script now1 now2 init) = [] \<and>
   trace (main_script now1 now2 init) = [LogInfo StartingService] \<and>
   get_transaction_status ''txn_test_ready'' (main_script now1 now2 init) =
     (RecordBody
        \<lparr>transaction_id = JStr ''txn_test_ready'', source_account = JStr ''acc_user_100'',
         destination_account = JStr ''acc_merchant_100'',
         amount = JFloat (Fract 7036170730324623 70368744177664), currency = JStr ''USD'',
         status = PROCESSED, created_at = get_utc_timestamp now1,
         processed_at = Some (get_utc_timestamp now2)\<rparr>, 200) \<and>
   TRANSACTIONS init = Map.empty \<and>
   get_transaction_status ''txn_test_ready'' init = (ErrorBody ''Transaction not found'', 404)"
proof -
  have "TRANSACTIONS (main_script now1 now2 init) (KStr ''txn_test_ready'') \<noteq> None"
    by (simp add: main_script_def)
  then have "TRANSACTIONS (main_script now1 now2 init) \<noteq> Map.empty" by force
  then show ?thesis
    by (simp add: main_script_def init_def get_transaction_status_def)
qed

text \<open>
  C6: when the record of the snapshot's id has status \<open>PROCESSED\<close>, \<open>process_transaction\<close>
  logs the idempotency warning and returns: whatever the long step would have done, it
  is not run (no \<open>Sleep\<close> is added to the trace), the dict, the queue and the running tasks
  are as before, and a second call leaves the dict as the first did. In the service, the
  executor starting such a task only logs the warning.
\<close>

theorem processed_is_skipped:
  assumes "py_hash (transaction_id d) = Some k" and "TRANSACTIONS st k = Some r"
    and "status r = PROCESSED"
  shows "process_transaction d slept now st =
       (Inr (), st\<lparr>trace := trace st @ [LogWarning (IdempotencySkip (transaction_id d))]\<rparr>) \<and>
     TRANSACTIONS (snd (process_transaction d slept now st)) = TRANSACTIONS st \<and>
     TRANSACTIONS (snd (process_transaction d slept' now'
         (snd (process_transaction d slept now st)))) =
       TRANSACTIONS (snd (process_transaction d slept now st)) \<and>
     TRANSACTIONS (snd (process_transaction d slept' now'
         (snd (process_transaction d slept now st)))) k = Some r \<and>
     (length (running st) < max_workers \<longrightarrow>
        step Dispatch (st\<lparr>queue := d # q\<rparr>) =
          st\<lparr>queue := q,
             trace := trace st @ [LogWarning (IdempotencySkip (transaction_id d))]\<rparr>)"
proof -
  let ?w = "LogWarning (IdempotencySkip (transaction_id d))"
  have one: "\<And>s. TRANSACTIONS s k = Some r \<Longrightarrow>
      process_transaction d slept now s = (Inr (), logging ?w s) \<and>
      process_transaction d slept' now' s = (Inr (), logging ?w s)"
    using assms(1,3) guard_skips [of d k _ r] by (simp add: process_transaction_def)
  have first: "process_transaction d slept now st = (Inr (), logging ?w st)"
    using one assms(2) by blast
  have second: "process_transaction d slept' now' (logging ?w st) =
      (Inr (), logging ?w (logging ?w st))"
    using one [of "logging ?w st"] assms(2) by simp
  have disp: "process_guard d (st\<lparr>queue := q\<rparr>) = (Inr True, logging ?w (st\<lparr>queue := q\<rparr>))"
    using assms guard_skips [of d k "st\<lparr>queue := q\<rparr>" r] by simp
  have eq: "\<And>s. logging ?w s = s\<lparr>trace := trace s @ [?w]\<rparr>" by (simp add: logging_def)
  have c1: "process_transaction d slept now st = (Inr (), st\<lparr>trace := trace st @ [?w]\<rparr>)"
    using first eq by simp
  have c2: "TRANSACTIONS (snd (process_transaction d slept now st)) = TRANSACTIONS st"
    using first by simp
  have c3: "TRANSACTIONS (snd (process_transaction d slept' now'
      (snd (process_transaction d slept now st)))) = TRANSACTIONS st"
    using first second by simp
  have c5: "step Dispatch (st\<lparr>queue := d # q\<rparr>) = st\<lparr>queue := q, trace := trace st @ [?w]\<rparr>"
    if "length (running st) < max_workers"
    using that disp by (simp add: logging_def)
  show ?thesis using c1 c2 c3 c5 assms(2) by simp
qed

theorem processed_is_skipped_witness:
  "py_hash (transaction_id (record_of ''txn_test_ready'' 5 PROCESSING [] None)) =
     Some (KStr ''txn_test_ready'') \<and>
   map_option status
     (TRANSACTIONS (main_script (clock 20) (clock 10) init) (KStr ''txn_test_ready'')) =
     Some PROCESSED \<and>
   process_transaction (record_of ''txn_test_ready'' 5 PROCESSING [] None) None (clock 40)
     (main_script (clock 20) (clock 10) init) =
     (Inr (), (main_script (clock 20) (clock 10) init)
        \<lparr>trace := [LogInfo StartingService,
                   LogWarning (IdempotencySkip (JStr ''txn_test_ready''))]\<rparr>) \<and>
   map_option processed_at
     (TRANSACTIONS (snd (process_transaction (record_of ''txn_test_ready'' 5 PROCESSING [] None)
        None (clock 40) (main_script (clock 20) (clock 10) init))) (KStr ''txn_test_ready'')) =
     Some (Some ''2025-01-02T03:04:10Z'')"
proof -
  let ?d = "record_of ''txn_test_ready'' 5 PROCESSING [] None"
  let ?st = "main_script (clock 20) (clock 10) init"
  obtain r where r: "TRANSACTIONS ?st (KStr ''txn_test_ready'') = Some r" "status r = PROCESSED"
    "processed_at r = Some ''2025-01-02T03:04:10Z''"
    by (simp add: main_script_def clock_stamp_10)
  have h: "py_hash (transaction_id ?d) = Some (KStr ''txn_test_ready'')"
    by (simp add: record_of_def)
  have t: "trace ?st = [LogInfo StartingService]" by (simp add: main_script_def init_def)
  have i: "transaction_id ?d = JStr ''txn_test_ready''" by (simp add: record_of_def)
  show ?thesis
    using processed_is_skipped [OF h r(1,2), of None "clock 40" None "clock 40" "[]"] r h t i
    by simp
qed



section \<open>What the worker reads of its argument\<close>

lemma process_guard_same:
  assumes "transaction_id d1 = transaction_id d2" and "same_ids s t"
  shows "fst (process_guard d1 s) = fst (process_guard d2 t) \<and>
     same_ids (snd (process_guard d1 s)) (snd (process_guard d2 t)) \<and>
     queue (snd (process_guard d1 s)) = queue s \<and> queue (snd (process_guard d2 t)) = queue t"
  using assms by (auto simp: process_guard_def same_ids_def Let_def split: option.splits)

lemma process_rest_same:
  assumes "same_ids s t"
  shows "same_ids (snd (process_rest tid slept now s)) (snd (process_rest tid slept now t))"
  using assms
  by (simp add: process_rest_def process_finish_def same_ids_def Let_def split: option.splits)

lemma receive_webhook_same:
  assumes "same_ids s t"
  shows "fst (receive_webhook request now s) = fst (receive_webhook request now t) \<and>
     same_ids (snd (receive_webhook request now s)) (snd (receive_webhook request now t))"
  using assms
  by (auto simp: receive_webhook_def webhook_try_def try_bind_def same_ids_def Let_def
      split: sum.splits option.splits if_splits)

lemma dispatch_same:
  assumes "same_ids s t"
  shows "same_ids (step Dispatch s) (step Dispatch t)"
proof (cases "queue s")
  case Nil
  then have "queue t = []" using assms by (simp add: same_ids_def)
  then show ?thesis using Nil assms by simp
next
  case (Cons d1 q1)
  then obtain d2 q2 where t: "queue t = d2 # q2" and d: "transaction_id d1 = transaction_id d2"
    and q: "map transaction_id q1 = map transaction_id q2"
    using assms by (cases "queue t") (auto simp: same_ids_def)
  have len: "length (running s) = length (running t)" using assms by (simp add: same_ids_def)
  have st: "same_ids (s\<lparr>queue := q1\<rparr>) (t\<lparr>queue := q2\<rparr>)"
    using assms q by (simp add: same_ids_def)
  obtain res1 s1 where g1: "process_guard d1 (s\<lparr>queue := q1\<rparr>) = (res1, s1)" by force
  obtain res2 t1 where g2: "process_guard d2 (t\<lparr>queue := q2\<rparr>) = (res2, t1)" by force
  have same: "res1 = res2" "same_ids s1 t1"
    using process_guard_same [OF d st] g1 g2 by simp_all
  then have run: "same_ids (s1\<lparr>running := running s1 @ [transaction_id d1]\<rparr>)
      (t1\<lparr>running := running t1 @ [transaction_id d2]\<rparr>)"
    using d by (simp add: same_ids_def)
  show ?thesis
    using Cons t len g1 g2 same run assms
    by (auto split: sum.splits bool.splits)
qed

lemma step_same:
  assumes "same_ids s t"
  shows "respond e s = respond e t \<and> same_ids (step e s) (step e t)"
proof (cases e)
  case (Post request now)
  then show ?thesis using receive_webhook_same [OF assms] by simp
next
  case (Get tid)
  then show ?thesis using assms by (simp add: get_transaction_status_def same_ids_def)
next
  case (Health now)
  then show ?thesis using assms by simp
next
  case Dispatch
  then show ?thesis using dispatch_same [OF assms] by simp
next
  case (Complete i slept now)
  have r: "running s = running t" using assms by (simp add: same_ids_def)
  have "same_ids (s\<lparr>running := take i (running s) @ drop (Suc i) (running s)\<rparr>)
      (t\<lparr>running := take i (running t) @ drop (Suc i) (running t)\<rparr>)"
    using assms by (simp add: same_ids_def)
  then show ?thesis using Complete r assms process_rest_same by simp
qed

lemma run_same:
  "same_ids s t \<Longrightarrow> responses es s = responses es t \<and> same_ids (run es s) (run es t)"
proof (induction es arbitrary: s t)
  case Nil
  then show ?case by simp
next
  case (Cons e es)
  then show ?case using step_same [of s t e] by simp
qed

text \<open>
  C9: \<open>process_transaction\<close> reads nothing but \<open>transaction_id\<close> of its argument. Two
  snapshots with the same id give the same result and the same state after the call, and
  the executor starting one or the other gives the same state. In the service: two states
  that differ only in the other fields of the queued snapshots go through the same dicts,
  the same running tasks and the same logs, and the clients are sent the same responses,
  whatever happens next.
\<close>

theorem worker_reads_id_only:
  "(transaction_id d1 = transaction_id d2 \<longrightarrow>
      process_transaction d1 slept now st = process_transaction d2 slept now st \<and>
      (length (running st) < max_workers \<longrightarrow>
         step Dispatch (st\<lparr>queue := d1 # q\<rparr>) = step Dispatch (st\<lparr>queue := d2 # q\<rparr>))) \<and>
   (same_ids s t \<longrightarrow>
      TRANSACTIONS (run es s) = TRANSACTIONS (run es t) \<and> same_ids (run es s) (run es t) \<and>
      responses es s = responses es t)"
proof -
  have "process_guard d1 s' = process_guard d2 s'" if "transaction_id d1 = transaction_id d2" for s'
    using that by (simp add: process_guard_def)
  then have "process_transaction d1 slept now st = process_transaction d2 slept now st \<and>
      (length (running st) < max_workers \<longrightarrow>
         step Dispatch (st\<lparr>queue := d1 # q\<rparr>) = step Dispatch (st\<lparr>queue := d2 # q\<rparr>))"
    if "transaction_id d1 = transaction_id d2"
    using that
    by (auto simp: process_transaction_def split: prod.splits sum.splits bool.splits)
  moreover have "TRANSACTIONS (run es s) = TRANSACTIONS (run es t) \<and>
      same_ids (run es s) (run es t) \<and> responses es s = responses es t" if "same_ids s t"
    using run_same [OF that, of es] by (simp add: same_ids_def)
  ultimately show ?thesis by blast
qed

theorem worker_reads_id_only_witness:
  "transaction_id (record_of ''t1'' 10 PROCESSING [] None) =
     transaction_id (record_of ''t1'' 99 PROCESSED ''x'' (Some ''y'')) \<and>
   amount (record_of ''t1'' 10 PROCESSING [] None) \<noteq>
     amount (record_of ''t1'' 99 PROCESSED ''x'' (Some ''y'')) \<and>
   process_transaction (record_of ''t1'' 99 PROCESSED ''x'' (Some ''y'')) None (clock 40)
     (run [Post (Inr (payload ''t1'' 10)) (clock 10)] init) =
   process_transaction (record_of ''t1'' 10 PROCESSING [] None) None (clock 40)
     (run [Post (Inr (payload ''t1'' 10)) (clock 10)] init) \<and>
   TRANSACTIONS (snd (process_transaction (record_of ''t1'' 10 PROCESSING [] None) None (clock 40)
     (run [Post (Inr (payload ''t1'' 10)) (clock 10)] init))) (KStr ''t1'') =
     Some (record_of ''t1'' 10 PROCESSED ''2025-01-02T03:04:10Z'' (Some ''2025-01-02T03:04:40Z'')) \<and>
   length (running (run [Post (Inr (payload ''t1'' 10)) (clock 10)] init)) < max_workers \<and>
   step Dispatch ((run [Post (Inr (payload ''t1'' 10)) (clock 10)] init)
       \<lparr>queue := [record_of ''t1'' 10 PROCESSING [] None]\<rparr>) =
     step Dispatch ((run [Post (Inr (payload ''t1'' 10)) (clock 10)] init)
       \<lparr>queue := [record_of ''t1'' 99 PROCESSED ''x'' (Some ''y'')]\<rparr>) \<and>
   same_ids (init\<lparr>queue := [record_of ''t1'' 10 PROCESSING [] None]\<rparr>)
     (init\<lparr>queue := [record_of ''t1'' 99 PROCESSED ''x'' (Some ''y'')]\<rparr>) \<and>
   TRANSACTIONS (run [Post (Inr (payload ''t1'' 10)) (clock 10), Dispatch, Dispatch]
       (init\<lparr>queue := [record_of ''t1'' 10 PROCESSING [] None]\<rparr>)) =
     TRANSACTIONS (run [Post (Inr (payload ''t1'' 10)) (clock 10), Dispatch, Dispatch]
       (init\<lparr>queue := [record_of ''t1'' 99 PROCESSED ''x'' (Some ''y'')]\<rparr>))"
proof -
  let ?d1 = "record_of ''t1'' 10 PROCESSING [] None"
  let ?d2 = "record_of ''t1'' 99 PROCESSED ''x'' (Some ''y'')"
  let ?st = "run [Post (Inr (payload ''t1'' 10)) (clock 10)] init"
  have i: "transaction_id ?d1 = transaction_id ?d2" "amount ?d1 \<noteq> amount ?d2"
    by (simp_all add: record_of_def)
  have s: "same_ids (init\<lparr>queue := [?d1]\<rparr>) (init\<lparr>queue := [?d2]\<rparr>)"
    by (simp add: same_ids_def record_of_def)
  have r: "TRANSACTIONS (snd (process_transaction ?d1 None (clock 40) ?st)) (KStr ''t1'') =
      Some (record_of ''t1'' 10 PROCESSED ''2025-01-02T03:04:10Z'' (Some ''2025-01-02T03:04:40Z''))"
    by (simp add: run_defs clock_stamp_10 clock_stamp_40)
  have l: "length (running ?st) < max_workers"
    by (simp add: run_defs)
  show ?thesis
    using worker_reads_id_only [of ?d1 ?d2 None "clock 40" ?st "[]"
        "init\<lparr>queue := [?d1]\<rparr>" "init\<lparr>queue := [?d2]\<rparr>"
        "[Post (Inr (payload ''t1'' 10)) (clock 10), Dispatch, Dispatch]"] i s r l
    by simp
qed

section \<open>Duplicate deliveries\<close>

lemma receive_webhook_keeps:
  assumes "TRANSACTIONS st k = Some r"
  shows "TRANSACTIONS (snd (receive_webhook request now st)) k = Some r"
  using assms
  by (auto simp: receive_webhook_def webhook_try_def try_bind_def Let_def
      split: sum.splits option.splits if_splits)

lemma getitem_object:
  assumes "py_getitem data f = Inr v"
  obtains kvs where "data = JObj kvs" and "map_of kvs f = Some v"
  using assms by (cases data) (auto split: option.splits)

lemma receive_webhook_duplicate:
  assumes "py_getitem data ''transaction_id'' = Inr t" and "py_hash t = Some k"
    and "TRANSACTIONS st k = Some r"
  shows "fst (receive_webhook (Inr data) now st) = (MessageBody t, 202) \<and>
     TRANSACTIONS (snd (receive_webhook (Inr data) now st)) = TRANSACTIONS st"
proof -
  obtain kvs where d: "data = JObj kvs" and m: "map_of kvs ''transaction_id'' = Some t"
    using assms(1) by (rule getitem_object)
  have "kvs \<noteq> []" using m by auto
  then show ?thesis
    using d m assms(2,3)
    by (simp add: receive_webhook_def webhook_try_def try_bind_def invalid_payload_def Let_def
        split: option.splits)
qed

lemma receive_webhook_first:
  assumes "py_getitem data ''transaction_id'' = Inr t" and "py_hash t = Some k"
    and "TRANSACTIONS st k = None"
  shows "\<exists>r. TRANSACTIONS (snd (receive_webhook (Inr data) now st)) k = Some r \<and>
     transaction_id r = t \<and>
     py_get data ''source_account'' = Inr (source_account r) \<and>
     py_get data ''destination_account'' = Inr (destination_account r) \<and>
     py_get data ''amount'' = Inr (amount r) \<and>
     py_get data ''currency'' = Inr (currency r) \<and>
     status r = PROCESSING \<and> created_at r = get_utc_timestamp now \<and> processed_at r = None"
proof -
  obtain kvs where d: "data = JObj kvs" and m: "map_of kvs ''transaction_id'' = Some t"
    using assms(1) by (rule getitem_object)
  have "kvs \<noteq> []" using m by auto
  then show ?thesis
    using d m assms(2,3)
    by (simp add: receive_webhook_def webhook_try_def try_bind_def invalid_payload_def Let_def
        split: option.splits)
qed

lemma same_payload_step:
  assumes "\<exists>r'. m k = Some r' \<and> same_payload r r'" and "store_step C m m'"
  shows "\<exists>r'. m' k = Some r' \<and> same_payload r r'"
  using assms(2)
proof cases
  case unchanged
  then show ?thesis using assms(1) by simp
next
  case (completed k' r0 now)
  then show ?thesis using assms(1) by (auto simp: same_payload_def)
next
  case (registered k' r0 now)
  then show ?thesis using assms(1) by auto
qed

lemma same_payload_run:
  assumes "TRANSACTIONS st k = Some r"
  shows "\<exists>r'. TRANSACTIONS (run es st) k = Some r' \<and> same_payload r r'"
proof (rule run_invariant [where P = "\<lambda>m. \<exists>r'. m k = Some r' \<and> same_payload r r'" and C = UNIV])
  show "\<exists>r'. TRANSACTIONS st k = Some r' \<and> same_payload r r'"
    using assms by (simp add: same_payload_def)
qed (auto intro: same_payload_step)

text \<open>
  C5: a record that is in the dict is left as it is, every field of it, by any later
  delivery; a delivery with the id of the record changes nothing in the dict and is
  answered 202. Whatever happens afterwards, the record stays, with the same id, payload
  fields and \<open>created_at\<close>, and that is what a status query sends. For the first delivery
  of an id these are the values of that delivery (\<open>None\<close> for a missing field) and the
  time of its arrival.
\<close>

theorem first_delivery_wins:
  "(TRANSACTIONS st k = Some r \<longrightarrow>
      TRANSACTIONS (snd (receive_webhook request now st)) k = Some r \<and>
      (py_getitem data ''transaction_id'' = Inr t \<and> py_hash t = Some k \<longrightarrow>
         fst (receive_webhook (Inr data) now st) = (MessageBody t, 202) \<and>
         TRANSACTIONS (snd (receive_webhook (Inr data) now st)) = TRANSACTIONS st) \<and>
      (\<exists>r'. TRANSACTIONS (run es st) k = Some r' \<and> same_payload r r') \<and>
      (k = KStr tid \<longrightarrow>
         (\<exists>r'. get_transaction_status tid (run es st) = (RecordBody r', 200) \<and>
            same_payload r r'))) \<and>
   (py_getitem data ''transaction_id'' = Inr (JStr tid) \<and> TRANSACTIONS st (KStr tid) = None \<longrightarrow>
      (\<exists>r'. get_transaction_status tid (run (Post (Inr data) now # es) st) = (RecordBody r', 200) \<and>
         transaction_id r' = JStr tid \<and>
         py_get data ''source_account'' = Inr (source_account r') \<and>
         py_get data ''destination_account'' = Inr (destination_account r') \<and>
         py_get data ''amount'' = Inr (amount r') \<and>
         py_get data ''currency'' = Inr (currency r') \<and>
         created_at r' = get_utc_timestamp now))"
proof -
  have query: "\<exists>r'. get_transaction_status tid (run es' s) = (RecordBody r', 200) \<and>
      same_payload r0 r'" if "TRANSACTIONS s (KStr tid) = Some r0" for s r0 es'
    using same_payload_run [OF that, of es'] by (auto simp: get_transaction_status_def)
  have present: "TRANSACTIONS (snd (receive_webhook request now st)) k = Some r \<and>
      (py_getitem data ''transaction_id'' = Inr t \<and> py_hash t = Some k \<longrightarrow>
         fst (receive_webhook (Inr data) now st) = (MessageBody t, 202) \<and>
         TRANSACTIONS (snd (receive_webhook (Inr data) now st)) = TRANSACTIONS st) \<and>
      (\<exists>r'. TRANSACTIONS (run es st) k = Some r' \<and> same_payload r r') \<and>
      (k = KStr tid \<longrightarrow>
         (\<exists>r'. get_transaction_status tid (run es st) = (RecordBody r', 200) \<and>
            same_payload r r'))" if "TRANSACTIONS st k = Some r"
    using that receive_webhook_keeps [OF that] receive_webhook_duplicate [of data t k st r now]
      same_payload_run [OF that, of es] query [of st r es]
    by blast
  have fresh: "\<exists>r'. get_transaction_status tid (run (Post (Inr data) now # es) st) =
        (RecordBody r', 200) \<and>
      transaction_id r' = JStr tid \<and>
      py_get data ''source_account'' = Inr (source_account r') \<and>
      py_get data ''destination_account'' = Inr (destination_account r') \<and>
      py_get data ''amount'' = Inr (amount r') \<and>
      py_get data ''currency'' = Inr (currency r') \<and>
      created_at r' = get_utc_timestamp now"
    if g: "py_getitem data ''transaction_id'' = Inr (JStr tid)"
      and n: "TRANSACTIONS st (KStr tid) = None"
  proof -
    obtain r0 where r0: "TRANSACTIONS (step (Post (Inr data) now) st) (KStr tid) = Some r0"
      and f: "transaction_id r0 = JStr tid"
        "py_get data ''source_account'' = Inr (source_account r0)"
        "py_get data ''destination_account'' = Inr (destination_account r0)"
        "py_get data ''amount'' = Inr (amount r0)"
        "py_get data ''currency'' = Inr (currency r0)"
        "created_at r0 = get_utc_timestamp now"
      using receive_webhook_first [OF g _ n, of now] by auto
    obtain r' where "get_transaction_status tid (run es (step (Post (Inr data) now) st)) =
        (RecordBody r', 200)" and "same_payload r0 r'"
      using query [OF r0, of es] by blast
    then show ?thesis using f by (auto simp: same_payload_def)
  qed
  show ?thesis using present fresh by blast
qed

theorem first_delivery_wins_witness:
  "py_getitem (payload ''t1'' 10) ''transaction_id'' = Inr (JStr ''t1'') \<and>
   TRANSACTIONS init (KStr ''t1'') = None \<and>
   get_transaction_status ''t1''
     (run [Post (Inr (payload ''t1'' 10)) (clock 10), Post (Inr (payload ''t1'' 99)) (clock 20),
           Dispatch, Complete 0 None (clock 40)] init) =
     (RecordBody (record_of ''t1'' 10 PROCESSED ''2025-01-02T03:04:10Z''
        (Some ''2025-01-02T03:04:40Z'')), 200) \<and>
   TRANSACTIONS (run [Post (Inr (payload ''t1'' 10)) (clock 10)] init) (KStr ''t1'') =
     Some (record_of ''t1'' 10 PROCESSING ''2025-01-02T03:04:10Z'' None) \<and>
   TRANSACTIONS (snd (receive_webhook (Inr (payload ''t1'' 99)) (clock 20)
       (run [Post (Inr (payload ''t1'' 10)) (clock 10)] init))) (KStr ''t1'') =
     Some (record_of ''t1'' 10 PROCESSING ''2025-01-02T03:04:10Z'' None) \<and>
   fst (receive_webhook (Inr (payload ''t1'' 99)) (clock 20)
       (run [Post (Inr (payload ''t1'' 10)) (clock 10)] init)) = (MessageBody (JStr ''t1''), 202)"
proof -
  let ?st = "run [Post (Inr (payload ''t1'' 10)) (clock 10)] init"
  let ?r = "record_of ''t1'' 10 PROCESSING ''2025-01-02T03:04:10Z'' None"
  have g: "py_getitem (payload ''t1'' 10) ''transaction_id'' = Inr (JStr ''t1'')"
    "py_getitem (payload ''t1'' 99) ''transaction_id'' = Inr (JStr ''t1'')"
    by (simp_all add: payload_def)
  have n: "TRANSACTIONS init (KStr ''t1'') = None" by (simp add: init_def)
  have q: "get_transaction_status ''t1''
     (run [Post (Inr (payload ''t1'' 10)) (clock 10), Post (Inr (payload ''t1'' 99)) (clock 20),
           Dispatch, Complete 0 None (clock 40)] init) =
     (RecordBody (record_of ''t1'' 10 PROCESSED ''2025-01-02T03:04:10Z''
        (Some ''2025-01-02T03:04:40Z'')), 200)"
    by (simp add: run_defs clock_stamp_10 clock_stamp_40)
  have r: "TRANSACTIONS ?st (KStr ''t1'') = Some ?r"
    by (simp add: run_defs clock_stamp_10)
  have "TRANSACTIONS (snd (receive_webhook (Inr (payload ''t1'' 99)) (clock 20) ?st)) (KStr ''t1'') =
      Some ?r \<and>
    fst (receive_webhook (Inr (payload ''t1'' 99)) (clock 20) ?st) = (MessageBody (JStr ''t1''), 202)"
    using first_delivery_wins [of ?st "KStr ''t1''" ?r "Inr (payload ''t1'' 99)" "clock 20"
        "payload ''t1'' 99" "JStr ''t1''" "[]" "''t1''"] r g(2)
    by simp
  then show ?thesis using g(1) n q r by simp
qed

end
